theory Spec2Isabelle
  imports Complex_Main "HOL-Library.AList"
begin

section \<open>Data model (src/models/task.ts)\<close>

text \<open>
  JavaScript numbers are modelled as exact rationals, dates as milliseconds since the
  epoch, optional fields as \<open>option\<close>. The fields \<open>id\<close> and \<open>output\<close> of the source are called
  \<open>task_id\<close> and \<open>output_text\<close> here (\<open>id\<close> is the identity function of HOL, \<open>output\<close> a
  keyword of Isabelle).
\<close>

datatype TaskStatus = pending | running | completed | failed | cancelled

record Task =
  task_id :: string
  projectId :: string
  prompt :: string
  status :: TaskStatus
  maxBudget :: "rat option"
  createdAt :: nat
  startedAt :: "nat option"
  completedAt :: "nat option"
  costUsd :: "rat option"
  durationMs :: "int option"
  output_text :: string
  error :: "string option"

record CreateTaskInput =
  input_projectId :: string
  input_prompt :: string
  input_maxBudget :: "rat option"


section \<open>History sink (history-service.ts)\<close>

text \<open>
  The history file is \<open>None\<close> when it does not exist or does not parse, and
  \<open>Some h\<close> when it holds the history \<open>h\<close>. \<open>loadHistory\<close> falls back to the
  empty history, \<open>saveHistory\<close> stamps \<open>lastUpdated\<close> and writes the file.
\<close>

text \<open>\<open>Array.prototype.findIndex\<close>: the first index whose element satisfies the
  predicate; the source's \<open>-1\<close> is \<open>None\<close>.\<close>

fun findIndex :: "('a \<Rightarrow> bool) \<Rightarrow> 'a list \<Rightarrow> nat option" where
  "findIndex P [] = None"
| "findIndex P (x # xs) = (if P x then Some 0 else map_option Suc (findIndex P xs))"








section \<open>Process Supervisor (process-spawner.ts)\<close>

text \<open>\<open>Number.prototype.toString\<close> on an integer: its decimal digits.\<close>

fun toString_nat :: "nat \<Rightarrow> string" where
  "toString_nat n =
     (if n < 10 then [''0123456789'' ! n]
      else toString_nat (n div 10) @ [''0123456789'' ! (n mod 10)])"

declare toString_nat.simps [simp del]

definition toString :: "int \<Rightarrow> string" where
  "toString i = (if i < 0 then CHR ''-'' # toString_nat (nat (- i)) else toString_nat (nat i))"

text \<open>Reading a decimal numeral back, to say which number an argument denotes.\<close>

definition digit_value :: "char \<Rightarrow> nat" where
  "digit_value c = (case findIndex (\<lambda>d. d = c) ''0123456789'' of Some d \<Rightarrow> d | None \<Rightarrow> 0)"

definition parse_nat :: "string \<Rightarrow> nat" where
  "parse_nat cs = foldl (\<lambda>acc c. 10 * acc + digit_value c) 0 cs"

record SpawnOptions =
  cwd :: string
  spawn_prompt :: string
  spawn_maxBudget :: "rat option"

text \<open>
  Node's \<open>ChildProcess\<close>, as far as the supervisor reads it. \<open>killed\<close> is set by
  \<open>kill\<close> when the signal was delivered; it is not set when the process ends.
  \<open>exited\<close> records that Node has reported the end of the process (\<open>exit\<close>) or
  its failure to spawn (\<open>error\<close>), after which \<open>kill\<close> delivers nothing.
\<close>

record ChildProcess =
  killed :: bool
  exited :: bool

definition child_kill :: "ChildProcess \<Rightarrow> ChildProcess" where
  "child_kill c = (if exited c then c else c\<lparr>killed := True\<rparr>)"

record ClaudeProcess =
  options :: SpawnOptions
  process :: "ChildProcess option"
  proc_output :: string
  errorOutput :: string

definition new_ClaudeProcess :: "SpawnOptions \<Rightarrow> ClaudeProcess" where
  "new_ClaudeProcess opts = \<lparr>options = opts, process = None, proc_output = [], errorOutput = []\<rparr>"

text \<open>The argument list \<open>start\<close> builds. \<open>if (this.options.maxBudget)\<close> is
  JavaScript truthiness: an absent budget and the budget 0 both skip the branch.\<close>

definition max_turns :: "rat \<Rightarrow> int" where
  "max_turns b = max 25 \<lceil>b * 10\<rceil>"

definition start_args :: "SpawnOptions \<Rightarrow> string list" where
  "start_args opts =
     [''-p'', spawn_prompt opts, ''--dangerously-skip-permissions'']
     @ (case spawn_maxBudget opts of
          None \<Rightarrow> []
        | Some b \<Rightarrow> if b \<noteq> 0 then [''--max-turns'', toString (max_turns b)] else [])
     @ [''--verbose'']"

text \<open>
  \<open>start\<close> calls \<open>spawn("claude", args, ...)\<close> with the argument list above and the
  working directory of the options. \<open>spawn\<close> returns a child object at once; a
  failure to spawn is reported later, by the child's \<open>error\<close> event.
\<close>

definition start :: "ClaudeProcess \<Rightarrow> ClaudeProcess" where
  "start p = p\<lparr>process := Some \<lparr>killed = False, exited = False\<rparr>\<rparr>"

definition spawnClaude :: "SpawnOptions \<Rightarrow> ClaudeProcess" where
  "spawnClaude opts = start (new_ClaudeProcess opts)"

text \<open>
  What the child process delivers, and what the supervisor emits. The events are
  kept in the order of emission; the engine registers its listeners as soon as
  \<open>spawnClaude\<close> has returned, before the child can deliver anything.
\<close>

datatype ChildEvent =
  stdout_data string
| stderr_data string
| child_exit "int option" "string option"
| child_error string

datatype ProcessEvent =
  output_event string
| error_event string
| exit_event "int option" "string option"

definition mark_exited :: "ClaudeProcess \<Rightarrow> ClaudeProcess" where
  "mark_exited p = p\<lparr>process := map_option (\<lambda>c. c\<lparr>exited := True\<rparr>) (process p)\<rparr>"

text \<open>The four handlers \<open>start\<close> registers on the child: the new supervisor and the
  events it emits, in order.\<close>

fun on_child_event :: "ClaudeProcess \<Rightarrow> ChildEvent \<Rightarrow> ClaudeProcess \<times> ProcessEvent list" where
  "on_child_event p (stdout_data str) = (p\<lparr>proc_output := proc_output p @ str\<rparr>, [output_event str])"
| "on_child_event p (stderr_data str) = (p\<lparr>errorOutput := errorOutput p @ str\<rparr>, [error_event str])"
| "on_child_event p (child_exit code signal) = (mark_exited p, [exit_event code signal])"
| "on_child_event p (child_error message) =
     (mark_exited p, [error_event message, exit_event (Some 1) None])"




definition kill :: "ClaudeProcess \<Rightarrow> ClaudeProcess" where
  "kill p = (case process p of
               None \<Rightarrow> p
             | Some c \<Rightarrow> if \<not> killed c then p\<lparr>process := Some (child_kill c)\<rparr> else p)"

definition getOutput :: "ClaudeProcess \<Rightarrow> string" where
  "getOutput p = proc_output p"

definition getErrorOutput :: "ClaudeProcess \<Rightarrow> string" where
  "getErrorOutput p = errorOutput p"

definition isRunning :: "ClaudeProcess \<Rightarrow> bool" where
  "isRunning p = (case process p of None \<Rightarrow> False | Some c \<Rightarrow> \<not> killed c)"


section \<open>Task Lifecycle Engine (task-manager.ts)\<close>

text \<open>
  The engine is a singleton whose methods are \<open>async\<close>: each runs until it awaits
  input or output (the project lookup, the history write) and is resumed when that
  settles. Between the two, other calls and other events run. The model keeps this
  as the code has it: the state holds the suspended calls, and one step is what runs
  without interruption, from an input of the environment (a call, a settled lookup
  or write, an event of a child process) to the next await of input or output.

  Task objects are shared by reference between the queue, the running map, the
  handlers of a supervisor and the suspended calls, so they live in a store
  (\<open>objects\<close>), and the other structures hold their addresses. Events and history
  calls record the task as it is when the event is emitted (the transport
  serialises it in the listener).
\<close>

text \<open>Of a project the engine reads the path only.\<close>

record Project =
  project_id :: string
  path :: string

datatype TaskEvent =
  task_created Task
| task_started Task
| task_output string string
| task_completed Task
| task_failed Task
| task_cancelled Task

text \<open>A suspended call and what it waits for: \<open>createTask\<close> and \<open>startTask\<close> for
  \<open>getProjectById\<close>, \<open>startTask\<close> (project missing) and the exit handler for
  \<open>addTaskToHistory\<close>. \<open>startTask\<close> is awaited by the loop of \<open>processQueue\<close>,
  which goes on when \<open>startTask\<close> returns.\<close>

datatype Suspended =
  createTask_lookup CreateTaskInput
| startTask_lookup nat
| startTask_history nat
| exit_history nat

text \<open>How an awaited promise settles.\<close>

datatype 'a settled = resolved 'a | rejected string

record TaskManager =
  pendingTasks :: "nat list"
  runningTasks :: "(string \<times> nat \<times> nat) list"
  objects :: "Task list"
  processes :: "(ClaudeProcess \<times> nat) list"
  events :: "TaskEvent list"
  historyCalls :: "Task list"
  suspended :: "Suspended list"
  uuidv4 :: "nat \<Rightarrow> string"
  uuid_calls :: nat

text \<open>
  \<open>runningTasks\<close> is the \<open>Map\<close> from task ID to the task (its address) and its
  supervisor (its index in \<open>processes\<close>), in insertion order. \<open>processes\<close> holds
  every supervisor spawned, with the address of the task its handlers close over.
  \<open>uuidv4\<close> is the generator of the uuid package: its \<open>n\<close>-th result.
\<close>

definition MAX_CONCURRENT_TASKS :: nat where
  "MAX_CONCURRENT_TASKS = 3"

definition new_TaskManager :: "(nat \<Rightarrow> string) \<Rightarrow> TaskManager" where
  "new_TaskManager gen =
     \<lparr>pendingTasks = [], runningTasks = [], objects = [], processes = [], events = [],
      historyCalls = [], suspended = [], uuidv4 = gen, uuid_calls = 0\<rparr>"

text \<open>Reading and updating a task object. An address is the index at which
  \<open>createTask\<close> has stored the object, so it is always in range.\<close>

definition deref :: "TaskManager \<Rightarrow> nat \<Rightarrow> Task" where
  "deref s a = objects s ! a"

definition modify :: "nat \<Rightarrow> (Task \<Rightarrow> Task) \<Rightarrow> TaskManager \<Rightarrow> TaskManager" where
  "modify a f s = s\<lparr>objects := (objects s)[a := f (objects s ! a)]\<rparr>"

definition emit :: "TaskEvent \<Rightarrow> TaskManager \<Rightarrow> TaskManager" where
  "emit e s = s\<lparr>events := events s @ [e]\<rparr>"

text \<open>The call of \<open>addTaskToHistory\<close>: the engine hands the task to the sink.\<close>

definition call_addTaskToHistory :: "nat \<Rightarrow> TaskManager \<Rightarrow> TaskManager" where
  "call_addTaskToHistory a s = s\<lparr>historyCalls := historyCalls s @ [deref s a]\<rparr>"

definition suspend :: "Suspended \<Rightarrow> TaskManager \<Rightarrow> TaskManager" where
  "suspend c s = s\<lparr>suspended := suspended s @ [c]\<rparr>"

definition resume :: "nat \<Rightarrow> TaskManager \<Rightarrow> TaskManager" where
  "resume k s = s\<lparr>suspended := take k (suspended s) @ drop (Suc k) (suspended s)\<rparr>"

text \<open>\<open>!x\<close> on an optional string: true when it is undefined or empty.\<close>

definition falsy :: "string option \<Rightarrow> bool" where
  "falsy e = (e = None \<or> e = Some [])"

text \<open>\<open>${code}\<close> in a template string, for \<open>number | null\<close>.\<close>

definition code_string :: "int option \<Rightarrow> string" where
  "code_string code = (case code of None \<Rightarrow> ''null'' | Some c \<Rightarrow> toString c)"

text \<open>
  \<open>processQueue\<close>, from its loop test to its first await: when the queue is not empty
  and there is capacity, the head is shifted and \<open>startTask\<close> called, which awaits
  the project lookup at once. The loop goes on in \<open>startTask_resumed\<close>.
\<close>

definition processQueue :: "TaskManager \<Rightarrow> TaskManager" where
  "processQueue s =
     (case pendingTasks s of
        [] \<Rightarrow> s
      | task # rest \<Rightarrow>
          if length (runningTasks s) < MAX_CONCURRENT_TASKS
          then suspend (startTask_lookup task) (s\<lparr>pendingTasks := rest\<rparr>)
          else s)"

text \<open>\<open>startTask\<close> after its lookup has resolved, and then the loop of
  \<open>processQueue\<close> that awaited it (only after the history write when the project is
  missing).\<close>

definition startTask_resumed :: "TaskManager \<Rightarrow> nat \<Rightarrow> nat \<Rightarrow> Project option \<Rightarrow> TaskManager" where
  "startTask_resumed s now task project =
     (case project of
        None \<Rightarrow>
          (let s1 = modify task (\<lambda>t. t\<lparr>status := failed,
                                       error := Some (''Project not found: '' @ projectId t),
                                       completedAt := Some now\<rparr>) s;
               s2 = emit (task_failed (deref s1 task)) s1;
               s3 = call_addTaskToHistory task s2
           in suspend (startTask_history task) s3)
      | Some p \<Rightarrow>
          (let s1 = modify task (\<lambda>t. t\<lparr>status := running, startedAt := Some now\<rparr>) s;
               t = deref s1 task;
               proc = spawnClaude \<lparr>cwd = path p, spawn_prompt = prompt t,
                                   spawn_maxBudget = maxBudget t\<rparr>;
               pid = length (processes s1);
               s2 = s1\<lparr>processes := processes s1 @ [(proc, task)]\<rparr>;
               s3 = s2\<lparr>runningTasks := AList.update (task_id t) (task, pid) (runningTasks s2)\<rparr>;
               s4 = emit (task_started t) s3
           in processQueue s4))"

text \<open>The three handlers \<open>startTask\<close> registers on the supervisor; the exit handler up
  to its await of the history write.\<close>

definition on_output :: "TaskManager \<Rightarrow> nat \<Rightarrow> string \<Rightarrow> TaskManager" where
  "on_output s task data =
     (let s1 = modify task (\<lambda>t. t\<lparr>output_text := output_text t @ data\<rparr>) s
      in emit (task_output (task_id (deref s1 task)) data) s1)"

definition on_error :: "TaskManager \<Rightarrow> nat \<Rightarrow> string \<Rightarrow> TaskManager" where
  "on_error s task data =
     modify task (\<lambda>t. t\<lparr>error := Some ((if falsy (error t) then [] else the (error t)) @ data)\<rparr>) s"

definition on_exit :: "TaskManager \<Rightarrow> nat \<Rightarrow> nat \<Rightarrow> int option \<Rightarrow> TaskManager" where
  "on_exit s now task code =
     (let s1 = s\<lparr>runningTasks := AList.delete (task_id (deref s task)) (runningTasks s)\<rparr>;
          s2 = modify task (\<lambda>t. t\<lparr>completedAt := Some now,
                                   durationMs := Some (int now -
                                     int (case startedAt t of Some st \<Rightarrow> st | None \<Rightarrow> 0))\<rparr>) s1;
          s3 = (if code = Some 0
                then (let s' = modify task (\<lambda>t. t\<lparr>status := completed\<rparr>) s2
                      in emit (task_completed (deref s' task)) s')
                else (let s' = modify task (\<lambda>t. t\<lparr>status := failed\<rparr>) s2;
                          s'' = (if falsy (error (deref s' task))
                                 then modify task (\<lambda>t. t\<lparr>error :=
                                        Some (''Process exited with code '' @ code_string code)\<rparr>) s'
                                 else s')
                      in emit (task_failed (deref s'' task)) s''));
          s4 = call_addTaskToHistory task s3
      in suspend (exit_history task) s4)"

fun on_process_event :: "nat \<Rightarrow> nat \<Rightarrow> TaskManager \<Rightarrow> ProcessEvent \<Rightarrow> TaskManager" where
  "on_process_event now task s (output_event data) = on_output s task data"
| "on_process_event now task s (error_event data) = on_error s task data"
| "on_process_event now task s (exit_event code signal) = on_exit s now task code"

text \<open>\<open>createTask\<close> up to its await of the lookup, and after it. A rejection is
  \<open>Inl\<close> of the message; otherwise the address of the task returned and the new
  state.\<close>

definition createTask :: "TaskManager \<Rightarrow> CreateTaskInput \<Rightarrow> TaskManager" where
  "createTask s input = suspend (createTask_lookup input) s"

definition createTask_resumed ::
  "TaskManager \<Rightarrow> nat \<Rightarrow> CreateTaskInput \<Rightarrow> Project option \<Rightarrow> string + (nat \<times> TaskManager)" where
  "createTask_resumed s now input project =
     (case project of
        None \<Rightarrow> Inl (''Project not found: '' @ input_projectId input)
      | Some p \<Rightarrow>
          (let task = \<lparr>task_id = uuidv4 s (uuid_calls s),
                       projectId = input_projectId input,
                       prompt = input_prompt input,
                       status = pending,
                       maxBudget = input_maxBudget input,
                       createdAt = now,
                       startedAt = None, completedAt = None, costUsd = None,
                       durationMs = None, output_text = [], error = None\<rparr>;
               a = length (objects s);
               s1 = s\<lparr>objects := objects s @ [task], uuid_calls := Suc (uuid_calls s)\<rparr>;
               s2 = s1\<lparr>pendingTasks := pendingTasks s1 @ [a]\<rparr>;
               s3 = emit (task_created task) s2
           in Inr (a, processQueue s3)))"

text \<open>\<open>xs.splice(i, 1)\<close>: the list without its element at \<open>i\<close>.\<close>

definition splice1 :: "nat \<Rightarrow> 'a list \<Rightarrow> 'a list" where
  "splice1 i xs = take i xs @ drop (Suc i) xs"

definition kill_process :: "nat \<Rightarrow> TaskManager \<Rightarrow> TaskManager" where
  "kill_process pid s =
     s\<lparr>processes := (processes s)[pid := (kill (fst (processes s ! pid)), snd (processes s ! pid))]\<rparr>"

definition cancelTask :: "TaskManager \<Rightarrow> nat \<Rightarrow> string \<Rightarrow> bool \<times> TaskManager" where
  "cancelTask s now taskId =
     (case findIndex (\<lambda>a. task_id (deref s a) = taskId) (pendingTasks s) of
        Some pendingIndex \<Rightarrow>
          (let task = pendingTasks s ! pendingIndex;
               s1 = s\<lparr>pendingTasks := splice1 pendingIndex (pendingTasks s)\<rparr>;
               s2 = modify task (\<lambda>t. t\<lparr>status := cancelled, completedAt := Some now\<rparr>) s1;
               s3 = emit (task_cancelled (deref s2 task)) s2
           in (True, call_addTaskToHistory task s3))
      | None \<Rightarrow>
          (case map_of (runningTasks s) taskId of
             Some (task, pid) \<Rightarrow>
               (let s1 = kill_process pid s;
                    s2 = modify task (\<lambda>t. t\<lparr>status := cancelled, completedAt := Some now\<rparr>) s1;
                    s3 = s2\<lparr>runningTasks := AList.delete taskId (runningTasks s2)\<rparr>;
                    s4 = emit (task_cancelled (deref s3 task)) s3;
                    s5 = call_addTaskToHistory task s4
                in (True, processQueue s5))
           | None \<Rightarrow> (False, s)))"

definition getTask :: "TaskManager \<Rightarrow> string \<Rightarrow> Task option" where
  "getTask s taskId =
     (case find (\<lambda>a. task_id (deref s a) = taskId) (pendingTasks s) of
        Some a \<Rightarrow> Some (deref s a)
      | None \<Rightarrow>
          (case map_of (runningTasks s) taskId of
             Some (task, pid) \<Rightarrow> Some (deref s task)
           | None \<Rightarrow> None))"

definition getActiveTasks :: "TaskManager \<Rightarrow> Task list" where
  "getActiveTasks s =
     map (\<lambda>(k, task, pid). deref s task) (runningTasks s) @ map (deref s) (pendingTasks s)"

definition getPendingCount :: "TaskManager \<Rightarrow> nat" where
  "getPendingCount s = length (pendingTasks s)"

definition getRunningCount :: "TaskManager \<Rightarrow> nat" where
  "getRunningCount s = length (runningTasks s)"

subsection \<open>The environment's inputs and the step of the engine\<close>

text \<open>
  \<open>lookup_settled k r\<close>: the \<open>getProjectById\<close> that the \<open>k\<close>-th suspended call awaits
  settles with \<open>r\<close>. \<open>history_settled k r\<close>: likewise for an awaited
  \<open>addTaskToHistory\<close>. \<open>child_event pid ev\<close>: the child of supervisor \<open>pid\<close>
  delivers \<open>ev\<close>. An input that fits no suspended call or supervisor changes
  nothing. When an awaited promise rejects, the awaiting call ends with that
  rejection and nothing after its await runs.
\<close>

datatype Input =
  call_createTask CreateTaskInput
| call_cancelTask string
| lookup_settled nat "Project option settled"
| history_settled nat "unit settled"
| child_event nat ChildEvent

definition on_lookup_settled :: "TaskManager \<Rightarrow> nat \<Rightarrow> nat \<Rightarrow> Project option settled \<Rightarrow> TaskManager" where
  "on_lookup_settled s now k r =
     (if k < length (suspended s) then
        (case suspended s ! k of
           createTask_lookup input \<Rightarrow>
             (case r of
                rejected e \<Rightarrow> resume k s
              | resolved project \<Rightarrow>
                  (case createTask_resumed (resume k s) now input project of
                     Inl e \<Rightarrow> resume k s
                   | Inr (a, s') \<Rightarrow> s'))
         | startTask_lookup task \<Rightarrow>
             (case r of
                rejected e \<Rightarrow> resume k s
              | resolved project \<Rightarrow> startTask_resumed (resume k s) now task project)
         | _ \<Rightarrow> s)
      else s)"

definition on_history_settled :: "TaskManager \<Rightarrow> nat \<Rightarrow> unit settled \<Rightarrow> TaskManager" where
  "on_history_settled s k r =
     (if k < length (suspended s) then
        (case suspended s ! k of
           startTask_history task \<Rightarrow>
             (case r of rejected e \<Rightarrow> resume k s | resolved u \<Rightarrow> processQueue (resume k s))
         | exit_history task \<Rightarrow>
             (case r of rejected e \<Rightarrow> resume k s | resolved u \<Rightarrow> processQueue (resume k s))
         | _ \<Rightarrow> s)
      else s)"

definition on_child :: "TaskManager \<Rightarrow> nat \<Rightarrow> nat \<Rightarrow> ChildEvent \<Rightarrow> TaskManager" where
  "on_child s now pid ev =
     (if pid < length (processes s) then
        (let (proc, task) = processes s ! pid;
             (proc', emitted) = on_child_event proc ev;
             s1 = s\<lparr>processes := (processes s)[pid := (proc', task)]\<rparr>
         in foldl (on_process_event now task) s1 emitted)
      else s)"

fun step :: "TaskManager \<Rightarrow> nat \<times> Input \<Rightarrow> TaskManager" where
  "step s (now, call_createTask input) = createTask s input"
| "step s (now, call_cancelTask taskId) = snd (cancelTask s now taskId)"
| "step s (now, lookup_settled k r) = on_lookup_settled s now k r"
| "step s (now, history_settled k r) = on_history_settled s k r"
| "step s (now, child_event pid ev) = on_child s now pid ev"

definition run :: "TaskManager \<Rightarrow> (nat \<times> Input) list \<Rightarrow> TaskManager" where
  "run s inputs = foldl step s inputs"


subsection \<open>Auxiliary notions for the properties of \<open>createTask\<close>\<close>

text \<open>What the uniqueness of task IDs depends on: the IDs of the task objects, the generator, and the number of IDs drawn from it.\<close>

definition id_view :: "TaskManager \<Rightarrow> string list \<times> (nat \<Rightarrow> string) \<times> nat" where
  "id_view s = (map task_id (objects s), uuidv4 s, uuid_calls s)"

text \<open>The task object \<open>createTask\<close> builds, and the state when it has pushed the task and emitted \<open>task:created\<close>, before it calls \<open>processQueue\<close>.\<close>

definition created_task :: "TaskManager \<Rightarrow> nat \<Rightarrow> CreateTaskInput \<Rightarrow> Task" where
  "created_task s now input =
     \<lparr>task_id = uuidv4 s (uuid_calls s),
      projectId = input_projectId input,
      prompt = input_prompt input,
      status = pending,
      maxBudget = input_maxBudget input,
      createdAt = now,
      startedAt = None, completedAt = None, costUsd = None,
      durationMs = None, output_text = [], error = None\<rparr>"

definition enqueued :: "TaskManager \<Rightarrow> nat \<Rightarrow> CreateTaskInput \<Rightarrow> TaskManager" where
  "enqueued s now input =
     emit (task_created (created_task s now input))
       (s\<lparr>objects := objects s @ [created_task s now input],
          uuid_calls := Suc (uuid_calls s),
          pendingTasks := pendingTasks s @ [length (objects s)]\<rparr>)"

text \<open>Every task object carries an ID the generator has returned.\<close>

definition ids_generated :: "TaskManager \<Rightarrow> bool" where
  "ids_generated s \<longleftrightarrow> (\<forall>i \<in> set (map task_id (objects s)). \<exists>n < uuid_calls s. i = uuidv4 s n)"

subsection \<open>Submissions that settle one by one\<close>

text \<open>
  A submission that settles before anything else happens: the call, its lookup, and
  the lookup of the \<open>startTask\<close> it may have led to (an input that changes nothing
  when no call is suspended). \<open>settled_state gen n s\<close> describes the engine after
  \<open>n\<close> of them: nothing suspended, the first three tasks in the running map, the
  others in the queue in the order of submission.
\<close>

definition submit_settled :: "TaskManager \<Rightarrow> nat \<times> CreateTaskInput \<times> Project \<Rightarrow> TaskManager" where
  "submit_settled s x =
     (case x of (now, input, p) \<Rightarrow>
        run s [(now, call_createTask input),
               (now, lookup_settled 0 (resolved (Some p))),
               (now, lookup_settled 0 (resolved (Some p)))])"

definition settled_state :: "(nat \<Rightarrow> string) \<Rightarrow> nat \<Rightarrow> TaskManager \<Rightarrow> bool" where
  "settled_state gen n s \<longleftrightarrow>
     suspended s = [] \<and> uuidv4 s = gen \<and> uuid_calls s = n \<and>
     map task_id (objects s) = map gen [0..<n] \<and>
     map fst (runningTasks s) = map gen [0..<min n 3] \<and>
     pendingTasks s = [3..<n]"

section \<open>Sample values (test-helpers.ts)\<close>



text \<open>
  The engine's test fixtures (task-manager.test.ts): the project every lookup finds,
  the default input, and the mocked uuid generator \<open>test-uuid-N\<close>.
\<close>

definition FAKE_PROJECT :: Project where
  "FAKE_PROJECT = \<lparr>project_id = ''proj-1'', path = ''/tmp/test-project''\<rparr>"

definition defaultInput :: "string \<Rightarrow> rat \<Rightarrow> CreateTaskInput" where
  "defaultInput p b = \<lparr>input_projectId = ''proj-1'', input_prompt = p, input_maxBudget = Some b\<rparr>"

definition test_uuid :: "nat \<Rightarrow> string" where
  "test_uuid n = ''test-uuid-'' @ toString (int (Suc n))"

definition found :: "Project option settled" where
  "found = resolved (Some FAKE_PROJECT)"

fun event_tag :: "TaskEvent \<Rightarrow> string \<times> string" where
  "event_tag (task_created t) = (''task:created'', task_id t)"
| "event_tag (task_started t) = (''task:started'', task_id t)"
| "event_tag (task_output i d) = (''task:output'', i)"
| "event_tag (task_completed t) = (''task:completed'', task_id t)"
| "event_tag (task_failed t) = (''task:failed'', task_id t)"
| "event_tag (task_cancelled t) = (''task:cancelled'', task_id t)"

definition burst :: "(nat \<times> Input) list" where
  "burst =
     [(1, call_createTask (defaultInput ''A'' 1)),
      (2, call_createTask (defaultInput ''B'' 1)),
      (3, call_createTask (defaultInput ''C'' 1)),
      (4, call_createTask (defaultInput ''D'' 1)),
      (5, lookup_settled 0 found),
      (6, lookup_settled 0 found),
      (7, lookup_settled 0 found),
      (8, lookup_settled 0 found),
      (9, lookup_settled 0 found),
      (10, lookup_settled 0 found),
      (11, lookup_settled 0 found),
      (12, lookup_settled 0 found)]"

definition budget_exceeded_run :: "(nat \<times> Input) list" where
  "budget_exceeded_run =
     [(1, call_createTask (defaultInput ''Do something useful'' 2)),
      (2, lookup_settled 0 found),
      (3, lookup_settled 0 found),
      (4, child_event 0 (stderr_data ''max turns exceeded'')),
      (5, child_event 0 (child_exit (Some 1) None))]"

definition cancel_then_exit :: "(nat \<times> Input) list" where
  "cancel_then_exit =
     [(1, call_createTask (defaultInput ''Do something useful'' 1)),
      (2, lookup_settled 0 found),
      (3, lookup_settled 0 found),
      (4, call_cancelTask ''test-uuid-1''),
      (5, child_event 0 (child_exit None (Some ''SIGTERM'')))]"

text \<open>
  Two runs in which every submission settles before the next input: the scenario
  of a task that prints \<open>a\<close>, \<open>b\<close> and exits with 0, and five submissions followed
  by the cancellation of the second task.
\<close>

definition fix_bug_run :: "(nat \<times> Input) list" where
  "fix_bug_run =
     [(1, call_createTask (defaultInput ''Fix bug'' 1)),
      (2, lookup_settled 0 found),
      (3, lookup_settled 0 found),
      (4, child_event 0 (stdout_data ''a'')),
      (5, child_event 0 (stdout_data ''b'')),
      (6, child_event 0 (child_exit (Some 0) None)),
      (7, history_settled 0 (resolved ()))]"

definition five_then_cancel :: "(nat \<times> Input) list" where
  "five_then_cancel =
     [(1, call_createTask (defaultInput ''A'' 1)), (2, lookup_settled 0 found), (3, lookup_settled 0 found),
      (4, call_createTask (defaultInput ''B'' 1)), (5, lookup_settled 0 found), (6, lookup_settled 0 found),
      (7, call_createTask (defaultInput ''C'' 1)), (8, lookup_settled 0 found), (9, lookup_settled 0 found),
      (10, call_createTask (defaultInput ''D'' 1)), (11, lookup_settled 0 found),
      (12, call_createTask (defaultInput ''E'' 1)), (13, lookup_settled 0 found),
      (14, call_cancelTask ''test-uuid-2''),
      (15, lookup_settled 0 found)]"

section \<open>Properties of the history sink\<close>

















section \<open>Properties of the Process Supervisor\<close>

lemma digit_value_digit: "d < 10 \<Longrightarrow> digit_value (''0123456789'' ! d) = d"
proof -
  assume "d < 10"
  then have "d \<in> {0, 1, 2, 3, 4, 5, 6, 7, 8, 9}" by auto
  then show ?thesis by (auto simp: digit_value_def)
qed

lemma parse_nat_snoc: "parse_nat (cs @ [c]) = 10 * parse_nat cs + digit_value c"
  by (simp add: parse_nat_def)

lemma parse_nat_toString_nat: "parse_nat (toString_nat n) = n"
proof (induction n rule: toString_nat.induct)
  case (1 n)
  show ?case
  proof (cases "n < 10")
    case True
    then show ?thesis
      by (subst toString_nat.simps) (simp add: parse_nat_def digit_value_digit)
  next
    case False
    have "parse_nat (toString_nat n) =
            10 * parse_nat (toString_nat (n div 10)) + digit_value (''0123456789'' ! (n mod 10))"
      using False by (subst toString_nat.simps) (simp add: parse_nat_snoc)
    also have "\<dots> = 10 * (n div 10) + n mod 10"
      using False by (simp add: "1.IH" digit_value_digit)
    finally show ?thesis by simp
  qed
qed



lemma max_turns_small: "b \<le> 5 / 2 \<Longrightarrow> max_turns b = 25"
proof -
  assume "b \<le> 5 / 2"
  then have "b * 10 \<le> of_int 25" by simp
  then have "\<lceil>b * 10\<rceil> \<le> 25" by (simp only: ceiling_le_iff)
  then show ?thesis by (simp add: max_turns_def)
qed

lemma max_turns_large: "5 / 2 \<le> b \<Longrightarrow> max_turns b = \<lceil>b * 10\<rceil>"
proof -
  assume "5 / 2 \<le> b"
  then have "of_int 25 \<le> b * 10" by simp
  then have "25 \<le> \<lceil>b * 10\<rceil>" by (simp only: le_ceiling_iff) 
  then show ?thesis by (simp add: max_turns_def)
qed



lemma max_turns_examples:
  "max_turns (1 / 2) = 25" "max_turns 5 = 50" "max_turns 7 = 70" "max_turns 10 = 100"
  "max_turns 2 = 25" "max_turns 4 = 40" "max_turns (26 / 10) = 26"
  by (simp_all add: max_turns_def)

lemma max_turns_rounds_up: "max_turns (251 / 100) = 26"
  by code_simp





lemma isRunning_before_start: "\<not> isRunning (new_ClaudeProcess opts)"
  by (simp add: isRunning_def new_ClaudeProcess_def)

lemma isRunning_after_start: "isRunning (spawnClaude opts)"
  by (simp add: isRunning_def spawnClaude_def start_def new_ClaudeProcess_def)

lemma isRunning_after_kill: "\<not> isRunning (kill (spawnClaude opts))"
  by (simp add: isRunning_def kill_def child_kill_def spawnClaude_def start_def new_ClaudeProcess_def)

text \<open>
  Claim C7, at the input where the source departs from it: after the child has
  exited with code 0 the supervisor still answers \<open>isRunning() = true\<close>, also after
  a \<open>kill\<close> that follows the exit, after a death by a signal sent from outside, and
  after a failure to spawn. \<open>isRunning\<close> reads \<open>killed\<close> only, which the end of
  the process does not set.
\<close>

theorem isRunning_after_exit:
  "isRunning (fst (on_child_event (spawnClaude opts) (child_exit (Some 0) None))) \<and>
   isRunning (kill (fst (on_child_event (spawnClaude opts) (child_exit (Some 0) None)))) \<and>
   isRunning (fst (on_child_event (spawnClaude opts) (child_exit None (Some ''SIGKILL'')))) \<and>
   isRunning (fst (on_child_event (spawnClaude opts) (child_error message)))"
  by (simp add: isRunning_def kill_def child_kill_def mark_exited_def spawnClaude_def start_def
        new_ClaudeProcess_def)

section \<open>Runs of the engine\<close>

text \<open>
  Claim C1, at the input where the source departs from it: a task with budget 2
  whose process writes \<open>max turns exceeded\<close> to its error stream and exits with
  code 1. The exit handler of the source fails the task at once: one
  \<open>task:failed\<close> event, the budget still 2, no second process, the failed task
  handed to the history. The source has no retry count, no \<open>retrying\<close> event and
  no test of the output for a budget signal.
\<close>

theorem budget_exceeded_exit_fails_task:
  "(let s = run (new_TaskManager test_uuid) budget_exceeded_run in
      map event_tag (events s) =
        [(''task:created'', ''test-uuid-1''), (''task:started'', ''test-uuid-1''),
         (''task:failed'', ''test-uuid-1'')] \<and>
      map status (objects s) = [failed] \<and>
      map maxBudget (objects s) = [Some 2] \<and>
      map error (objects s) = [Some ''max turns exceeded''] \<and>
      length (processes s) = 1 \<and>
      getRunningCount s = 0 \<and>
      map status (historyCalls s) = [failed])"
  by code_simp

text \<open>
  Claim C2, at the input where the source departs from it: a running task is
  cancelled, and then the killed process exits by \<open>SIGTERM\<close>. \<open>cancelTask\<close> leaves
  the exit handler on the supervisor, so the handler runs: after
  \<open>task:cancelled\<close> a \<open>task:failed\<close> event is emitted for the task, its status
  goes from cancelled to failed, and \<open>addTaskToHistory\<close> is called a second time.
  \<open>getTask\<close> returns nothing for it, as the claim says.
\<close>

theorem exit_after_cancel_fails_task:
  "(let s = run (new_TaskManager test_uuid) cancel_then_exit in
      map event_tag (events s) =
        [(''task:created'', ''test-uuid-1''), (''task:started'', ''test-uuid-1''),
         (''task:cancelled'', ''test-uuid-1''), (''task:failed'', ''test-uuid-1'')] \<and>
      map status (objects s) = [failed] \<and>
      map error (objects s) = [Some ''Process exited with code null''] \<and>
      map (\<lambda>t. (task_id t, status t)) (historyCalls s) =
        [(''test-uuid-1'', cancelled), (''test-uuid-1'', failed)] \<and>
      getTask s ''test-uuid-1'' = None)"
  by code_simp

text \<open>
  Claim C3, at the input where the source departs from it: four submissions made
  before the project lookup of the first has settled, and no completion. Each
  \<open>createTask\<close> resumes, finds fewer than three tasks in the running map and
  hands its task to \<open>startTask\<close>, which enters it in the map only after a lookup of
  its own. When the eight lookups have settled, four tasks run. After the first
  eight inputs all four tasks exist and neither set holds any of them.
\<close>

theorem burst_of_four_runs_four:
  "(let s = run (new_TaskManager test_uuid) burst in
      getRunningCount s = 4 \<and> getPendingCount s = 0) \<and>
   (let s = run (new_TaskManager test_uuid) (take 8 burst) in
      getRunningCount s = 0 \<and> getPendingCount s = 0 \<and> length (objects s) = 4)"
  by code_simp

text \<open>
  Claim C4, at the same input: the tasks A, B, C and D are submitted in this order;
  D is started while A, B and C are running, and no task has reached a terminal
  state.
\<close>

theorem burst_starts_fourth_task:
  "(let s = run (new_TaskManager test_uuid) burst in
      map event_tag (events s) =
        [(''task:created'', ''test-uuid-1''), (''task:created'', ''test-uuid-2''),
         (''task:created'', ''test-uuid-3''), (''task:created'', ''test-uuid-4''),
         (''task:started'', ''test-uuid-1''), (''task:started'', ''test-uuid-2''),
         (''task:started'', ''test-uuid-3''), (''task:started'', ''test-uuid-4'')] \<and>
      map (\<lambda>t. (prompt t, status t)) (objects s) =
        [(''A'', running), (''B'', running), (''C'', running), (''D'', running)])"
  by code_simp


section \<open>Properties of \<open>createTask\<close>\<close>

lemma map_update_same: "(map f xs)[a := f (xs ! a)] = map f xs"
  by (cases "a < length xs") (simp_all add: list_update_same_conv list_update_beyond)

lemma id_view_modify:
  "(\<And>t. task_id (f t) = task_id t) \<Longrightarrow> id_view (modify a f s) = id_view s"
  by (simp add: id_view_def modify_def map_update map_update_same)

lemma id_view_emit [simp]: "id_view (emit e s) = id_view s"
  by (simp add: id_view_def emit_def)

lemma id_view_suspend [simp]: "id_view (suspend c s) = id_view s"
  by (simp add: id_view_def suspend_def)

lemma id_view_resume [simp]: "id_view (resume k s) = id_view s"
  by (simp add: id_view_def resume_def)

lemma id_view_history [simp]: "id_view (call_addTaskToHistory a s) = id_view s"
  by (simp add: id_view_def call_addTaskToHistory_def)

lemma id_view_kill [simp]: "id_view (kill_process pid s) = id_view s"
  by (simp add: id_view_def kill_process_def)

lemma id_view_fields [simp]:
  "id_view (s\<lparr>runningTasks := r\<rparr>) = id_view s"
  "id_view (s\<lparr>pendingTasks := q\<rparr>) = id_view s"
  "id_view (s\<lparr>processes := ps\<rparr>) = id_view s"
  by (simp_all add: id_view_def)

lemma id_view_processQueue [simp]: "id_view (processQueue s) = id_view s"
  by (simp add: processQueue_def split: list.splits)

lemma id_view_startTask_resumed [simp]: "id_view (startTask_resumed s now task project) = id_view s"
  by (cases project) (simp_all add: startTask_resumed_def Let_def id_view_modify)

lemma id_view_on_output [simp]: "id_view (on_output s task data) = id_view s"
  by (simp add: on_output_def Let_def id_view_modify)

lemma id_view_on_error [simp]: "id_view (on_error s task data) = id_view s"
  by (simp add: on_error_def id_view_modify)

lemma id_view_on_exit [simp]: "id_view (on_exit s now task code) = id_view s"
  by (simp add: on_exit_def Let_def id_view_modify)

lemma id_view_cancelTask [simp]: "id_view (snd (cancelTask s now taskId)) = id_view s"
  by (simp add: cancelTask_def Let_def id_view_modify split: option.splits prod.splits)

lemma id_view_on_process_event [simp]: "id_view (on_process_event now task s e) = id_view s"
  by (cases e) simp_all

lemma id_view_foldl_process_events [simp]:
  "id_view (foldl (on_process_event now task) s es) = id_view s"
  by (induction es arbitrary: s) simp_all

lemma id_view_on_child [simp]: "id_view (on_child s now pid ev) = id_view s"
proof (cases "pid < length (processes s)")
  case False
  then show ?thesis by (simp add: on_child_def)
next
  case True
  obtain proc task where pt: "processes s ! pid = (proc, task)" by (cases "processes s ! pid")
  obtain proc' emitted where pe: "on_child_event proc ev = (proc', emitted)"
    by (cases "on_child_event proc ev")
  from True pt pe show ?thesis by (simp add: on_child_def)
qed

lemma id_view_on_history_settled [simp]: "id_view (on_history_settled s k r) = id_view s"
proof (cases "k < length (suspended s)")
  case False
  then show ?thesis by (simp add: on_history_settled_def)
next
  case True
  then show ?thesis
    by (cases "suspended s ! k"; cases r) (simp_all add: on_history_settled_def)
qed

lemma id_view_createTask [simp]: "id_view (createTask s input) = id_view s"
  by (simp add: createTask_def)

lemma createTask_resumed_Some:
  "createTask_resumed s now input (Some p) = Inr (length (objects s), processQueue (enqueued s now input))"
  by (simp add: createTask_resumed_def Let_def enqueued_def created_task_def emit_def)

lemma createTask_resumed_None:
  "createTask_resumed s now input None = Inl (''Project not found: '' @ input_projectId input)"
  by (simp add: createTask_resumed_def)

lemma id_view_enqueued:
  "id_view (enqueued s now input) =
     (map task_id (objects s) @ [uuidv4 s (uuid_calls s)], uuidv4 s, Suc (uuid_calls s))"
  by (simp add: enqueued_def id_view_def emit_def created_task_def)

lemma ids_generated_view:
  "ids_generated s \<longleftrightarrow> (case id_view s of (ids, gen, n) \<Rightarrow> \<forall>i \<in> set ids. \<exists>m < n. i = gen m)"
  by (simp add: ids_generated_def id_view_def)

lemma ids_generated_cong: "id_view s' = id_view s \<Longrightarrow> ids_generated s' = ids_generated s"
  by (simp add: ids_generated_view)

lemma uuidv4_cong: "id_view s' = id_view s \<Longrightarrow> uuidv4 s' = uuidv4 s"
  by (simp add: id_view_def)

lemma ids_generated_enqueued:
  assumes "ids_generated s"
  shows "ids_generated (processQueue (enqueued s now input))"
proof -
  have "id_view (processQueue (enqueued s now input)) =
          (map task_id (objects s) @ [uuidv4 s (uuid_calls s)], uuidv4 s, Suc (uuid_calls s))"
    by (simp add: id_view_enqueued)
  then show ?thesis
    using assms unfolding ids_generated_view id_view_def
    by (auto simp: less_Suc_eq)
qed

lemma uuidv4_enqueued: "uuidv4 (processQueue (enqueued s now input)) = uuidv4 s"
proof -
  have "id_view (processQueue (enqueued s now input)) =
          (map task_id (objects s) @ [uuidv4 s (uuid_calls s)], uuidv4 s, Suc (uuid_calls s))"
    by (simp add: id_view_enqueued)
  then show ?thesis by (simp add: id_view_def)
qed

lemma on_lookup_settled_createTask:
  assumes "k < length (suspended s)" "suspended s ! k = createTask_lookup input"
  shows "on_lookup_settled s now k (rejected e) = resume k s"
    and "on_lookup_settled s now k (resolved None) = resume k s"
    and "on_lookup_settled s now k (resolved (Some p)) = processQueue (enqueued (resume k s) now input)"
  using assms
  by (simp_all add: on_lookup_settled_def createTask_resumed_Some createTask_resumed_None)

lemma on_lookup_settled_startTask:
  assumes "k < length (suspended s)" "suspended s ! k = startTask_lookup task"
  shows "on_lookup_settled s now k (rejected e) = resume k s"
    and "on_lookup_settled s now k (resolved project) = startTask_resumed (resume k s) now task project"
  using assms by (simp_all add: on_lookup_settled_def)

lemma on_lookup_settled_other:
  "\<not> k < length (suspended s) \<Longrightarrow> on_lookup_settled s now k r = s"
  "k < length (suspended s) \<Longrightarrow> suspended s ! k = startTask_history task \<Longrightarrow> on_lookup_settled s now k r = s"
  "k < length (suspended s) \<Longrightarrow> suspended s ! k = exit_history task \<Longrightarrow> on_lookup_settled s now k r = s"
  by (simp_all add: on_lookup_settled_def)

lemma ids_generated_on_lookup_settled:
  assumes "ids_generated s"
  shows "ids_generated (on_lookup_settled s now k r) \<and> uuidv4 (on_lookup_settled s now k r) = uuidv4 s"
proof (cases "k < length (suspended s)")
  case False
  with assms show ?thesis by (simp add: on_lookup_settled_other)
next
  case True
  have res: "ids_generated (resume k s)" "uuidv4 (resume k s) = uuidv4 s"
    using assms by (simp_all add: ids_generated_cong [of "resume k s" s] uuidv4_cong [of "resume k s" s])
  show ?thesis
  proof (cases "suspended s ! k")
    case (createTask_lookup input)
    show ?thesis
    proof (cases r)
      case (rejected e)
      with res on_lookup_settled_createTask(1) [OF True createTask_lookup] show ?thesis by simp
    next
      case (resolved project)
      show ?thesis
      proof (cases project)
        case None
        with resolved res on_lookup_settled_createTask(2) [OF True createTask_lookup] show ?thesis
          by simp
      next
        case (Some p)
        with resolved on_lookup_settled_createTask(3) [OF True createTask_lookup, of now p]
          ids_generated_enqueued [OF res(1), of now input] uuidv4_enqueued [of "resume k s" now input] res(2)
        show ?thesis by simp
      qed
    qed
  next
    case (startTask_lookup task)
    have "id_view (on_lookup_settled s now k r) = id_view s"
      using on_lookup_settled_startTask [OF True startTask_lookup] by (cases r) simp_all
    with assms show ?thesis
      using ids_generated_cong uuidv4_cong by blast
  next
    case (startTask_history task)
    with True assms show ?thesis by (simp add: on_lookup_settled_other)
  next
    case (exit_history task)
    with True assms show ?thesis by (simp add: on_lookup_settled_other)
  qed
qed

lemma ids_generated_step:
  assumes "ids_generated s"
  shows "ids_generated (step s inp) \<and> uuidv4 (step s inp) = uuidv4 s"
proof -
  obtain now i where inp: "inp = (now, i)" by (cases inp)
  show ?thesis
  proof (cases i)
    case (lookup_settled k r)
    with inp ids_generated_on_lookup_settled [OF assms] show ?thesis by simp
  next
    case (call_createTask input)
    have "id_view (step s inp) = id_view s" using inp call_createTask by simp
    with assms show ?thesis using ids_generated_cong uuidv4_cong by blast
  next
    case (call_cancelTask taskId)
    have "id_view (step s inp) = id_view s" using inp call_cancelTask by simp
    with assms show ?thesis using ids_generated_cong uuidv4_cong by blast
  next
    case (history_settled k r)
    have "id_view (step s inp) = id_view s" using inp history_settled by simp
    with assms show ?thesis using ids_generated_cong uuidv4_cong by blast
  next
    case (child_event pid ev)
    have "id_view (step s inp) = id_view s" using inp child_event by simp
    with assms show ?thesis using ids_generated_cong uuidv4_cong by blast
  qed
qed

lemma ids_generated_run:
  "ids_generated (run (new_TaskManager gen) inputs) \<and> uuidv4 (run (new_TaskManager gen) inputs) = gen"
proof (induction inputs rule: rev_induct)
  case Nil
  show ?case by (simp add: run_def new_TaskManager_def ids_generated_def)
next
  case (snoc inp inputs)
  then show ?case using ids_generated_step [of "run (new_TaskManager gen) inputs" inp]
    by (simp add: run_def)
qed

lemma fresh_uuid:
  assumes "inj gen"
  shows "gen (uuid_calls (run (new_TaskManager gen) inputs))
           \<notin> task_id ` set (objects (run (new_TaskManager gen) inputs))"
proof
  let ?s = "run (new_TaskManager gen) inputs"
  assume "gen (uuid_calls ?s) \<in> task_id ` set (objects ?s)"
  with ids_generated_run [of gen inputs]
  obtain n where "n < uuid_calls ?s" "gen (uuid_calls ?s) = gen n"
    unfolding ids_generated_def by auto
  with assms show False by (auto dest: injD)
qed

lemma processQueue_cases:
  "processQueue s = s \<or>
   (\<exists>h rest. pendingTasks s = h # rest \<and> length (runningTasks s) < MAX_CONCURRENT_TASKS \<and>
      processQueue s = suspend (startTask_lookup h) (s\<lparr>pendingTasks := rest\<rparr>))"
  by (cases "pendingTasks s") (simp_all add: processQueue_def)

lemma processQueue_keeps:
  "objects (processQueue s) = objects s"
  "events (processQueue s) = events s"
  "runningTasks (processQueue s) = runningTasks s"
  "historyCalls (processQueue s) = historyCalls s"
  "processes (processQueue s) = processes s"
  using processQueue_cases [of s] by (auto simp: suspend_def)

lemma processQueue_queue:
  "pendingTasks (processQueue s) = pendingTasks s \<and> suspended (processQueue s) = suspended s \<or>
   (\<exists>h. h # pendingTasks (processQueue s) = pendingTasks s \<and>
        suspended (processQueue s) = suspended s @ [startTask_lookup h])"
  using processQueue_cases [of s] by (auto simp: suspend_def)

lemma enqueued_fields:
  "objects (enqueued s now input) = objects s @ [created_task s now input]"
  "events (enqueued s now input) = events s @ [task_created (created_task s now input)]"
  "pendingTasks (enqueued s now input) = pendingTasks s @ [length (objects s)]"
  "runningTasks (enqueued s now input) = runningTasks s"
  "historyCalls (enqueued s now input) = historyCalls s"
  "processes (enqueued s now input) = processes s"
  "suspended (enqueued s now input) = suspended s"
  by (simp_all add: enqueued_def emit_def)

lemma resume_fields:
  "objects (resume k s) = objects s"
  "events (resume k s) = events s"
  "pendingTasks (resume k s) = pendingTasks s"
  "runningTasks (resume k s) = runningTasks s"
  "historyCalls (resume k s) = historyCalls s"
  "processes (resume k s) = processes s"
  "uuidv4 (resume k s) = uuidv4 s"
  "uuid_calls (resume k s) = uuid_calls s"
  by (simp_all add: resume_def)


text \<open>
  Claim C8. Take any state the engine can reach and a \<open>createTask\<close> call
  suspended in it at its project lookup. When the lookup finds no project, the call
  rejects with \<open>Project not found: <projectId>\<close>, and nothing of the engine changes
  but the suspended call being gone: no task object, no queue or map entry, no
  event, no history call. When it finds one, the call returns a new task object with
  status pending, empty output, no error, the fields of the input and an ID that no
  other task object carries (the uuid generator never repeats an ID); the
  \<open>task:created\<close> event for it is the one event emitted; the task is appended to the
  pending queue, of which the admission cycle then may hand the head to \<open>startTask\<close>.
\<close>

theorem createTask_rejects_or_enqueues:
  assumes s: "s = run (new_TaskManager gen) inputs"
    and gen: "inj gen"
    and k: "k < length (suspended s)"
    and call: "suspended s ! k = createTask_lookup input"
  shows
    "createTask_resumed (resume k s) now input None =
       Inl (''Project not found: '' @ input_projectId input) \<and>
     on_lookup_settled s now k (resolved None) = resume k s \<and>
     objects (resume k s) = objects s \<and>
     pendingTasks (resume k s) = pendingTasks s \<and>
     runningTasks (resume k s) = runningTasks s \<and>
     processes (resume k s) = processes s \<and>
     events (resume k s) = events s \<and>
     historyCalls (resume k s) = historyCalls s \<and>
     (\<exists>s' t. createTask_resumed (resume k s) now input (Some p) = Inr (length (objects s), s') \<and>
        on_lookup_settled s now k (resolved (Some p)) = s' \<and>
        objects s' = objects s @ [t] \<and>
        status t = pending \<and> output_text t = [] \<and> error t = None \<and>
        task_id t \<notin> task_id ` set (objects s) \<and>
        projectId t = input_projectId input \<and> prompt t = input_prompt input \<and>
        maxBudget t = input_maxBudget input \<and> createdAt t = now \<and>
        events s' = events s @ [task_created t] \<and>
        (pendingTasks s' = pendingTasks s @ [length (objects s)] \<or>
         (\<exists>h. h # pendingTasks s' = pendingTasks s @ [length (objects s)] \<and>
              suspended s' = suspended (resume k s) @ [startTask_lookup h])) \<and>
        runningTasks s' = runningTasks s \<and> historyCalls s' = historyCalls s \<and>
        processes s' = processes s)"
proof -
  let ?r = "resume k s"
  let ?t = "created_task ?r now input"
  let ?s' = "processQueue (enqueued ?r now input)"
  have uu: "uuidv4 s = gen" using ids_generated_run [of gen inputs] s by simp
  have fresh: "task_id ?t \<notin> task_id ` set (objects s)"
    using fresh_uuid [OF gen, of inputs] s uu
    by (simp add: created_task_def resume_fields)
  have a: "createTask_resumed ?r now input (Some p) = Inr (length (objects s), ?s')"
    by (simp add: createTask_resumed_Some resume_fields)
  have b: "on_lookup_settled s now k (resolved (Some p)) = ?s'"
    by (rule on_lookup_settled_createTask(3) [OF k call])
  have c: "objects ?s' = objects s @ [?t]" "events ?s' = events s @ [task_created ?t]"
    "runningTasks ?s' = runningTasks s" "historyCalls ?s' = historyCalls s"
    "processes ?s' = processes s"
    by (simp_all add: processQueue_keeps enqueued_fields resume_fields)
  have d: "status ?t = pending" "output_text ?t = []" "error ?t = None"
    "projectId ?t = input_projectId input" "prompt ?t = input_prompt input"
    "maxBudget ?t = input_maxBudget input" "createdAt ?t = now"
    by (simp_all add: created_task_def)
  have e: "pendingTasks ?s' = pendingTasks s @ [length (objects s)] \<or>
         (\<exists>h. h # pendingTasks ?s' = pendingTasks s @ [length (objects s)] \<and>
              suspended ?s' = suspended ?r @ [startTask_lookup h])"
    using processQueue_queue [of "enqueued ?r now input"]
    by (auto simp: enqueued_fields resume_fields)
  have acc: "\<exists>s' t. createTask_resumed ?r now input (Some p) = Inr (length (objects s), s') \<and>
        on_lookup_settled s now k (resolved (Some p)) = s' \<and>
        objects s' = objects s @ [t] \<and>
        status t = pending \<and> output_text t = [] \<and> error t = None \<and>
        task_id t \<notin> task_id ` set (objects s) \<and>
        projectId t = input_projectId input \<and> prompt t = input_prompt input \<and>
        maxBudget t = input_maxBudget input \<and> createdAt t = now \<and>
        events s' = events s @ [task_created t] \<and>
        (pendingTasks s' = pendingTasks s @ [length (objects s)] \<or>
         (\<exists>h. h # pendingTasks s' = pendingTasks s @ [length (objects s)] \<and>
              suspended s' = suspended ?r @ [startTask_lookup h])) \<and>
        runningTasks s' = runningTasks s \<and> historyCalls s' = historyCalls s \<and>
        processes s' = processes s"
    apply (rule exI [of _ ?s'])
    apply (rule exI [of _ ?t])
    using a b c d e fresh apply (intro conjI)
                    apply assumption+
    done
  have rej: "createTask_resumed ?r now input None =
       Inl (''Project not found: '' @ input_projectId input)"
    by (rule createTask_resumed_None)
  have rej2: "on_lookup_settled s now k (resolved None) = ?r"
    by (rule on_lookup_settled_createTask(2) [OF k call])
  show ?thesis
    using rej rej2 acc by (simp add: resume_fields)
qed

lemma inj_test_uuid: "inj test_uuid"
proof (rule injI)
  fix n m
  assume "test_uuid n = test_uuid m"
  then have "toString_nat (Suc n) = toString_nat (Suc m)"
    by (simp add: test_uuid_def toString_def del: of_nat_Suc)
  then have "parse_nat (toString_nat (Suc n)) = parse_nat (toString_nat (Suc m))" by simp
  then show "n = m" by (simp add: parse_nat_toString_nat)
qed

theorem createTask_rejects_or_enqueues_witness:
  "inj test_uuid \<and>
   0 < length (suspended (run (new_TaskManager test_uuid) [(5, call_createTask (defaultInput ''Fix bug'' 1))])) \<and>
   suspended (run (new_TaskManager test_uuid) [(5, call_createTask (defaultInput ''Fix bug'' 1))]) ! 0 =
     createTask_lookup (defaultInput ''Fix bug'' 1) \<and>
   createTask_resumed
     (resume 0 (run (new_TaskManager test_uuid) [(5, call_createTask (defaultInput ''Fix bug'' 1))]))
     7 (defaultInput ''Fix bug'' 1) None = Inl ''Project not found: proj-1'' \<and>
   events (on_lookup_settled
     (run (new_TaskManager test_uuid) [(5, call_createTask (defaultInput ''Fix bug'' 1))])
     7 0 (resolved None)) = []"
proof -
  let ?s = "run (new_TaskManager test_uuid) [(5, call_createTask (defaultInput ''Fix bug'' 1))]"
  have sus: "suspended ?s = [createTask_lookup (defaultInput ''Fix bug'' 1)]"
    by (simp add: run_def new_TaskManager_def createTask_def suspend_def)
  have ev: "events ?s = []"
    by (simp add: run_def new_TaskManager_def createTask_def suspend_def)
  have h2: "0 < length (suspended ?s)" by (simp add: sus)
  have h3: "suspended ?s ! 0 = createTask_lookup (defaultInput ''Fix bug'' 1)" by (simp add: sus)
  from createTask_rejects_or_enqueues [OF refl inj_test_uuid h2 h3, of 7 FAKE_PROJECT]
  have "createTask_resumed (resume 0 ?s) 7 (defaultInput ''Fix bug'' 1) None =
          Inl (''Project not found: '' @ input_projectId (defaultInput ''Fix bug'' 1))"
    and "events (on_lookup_settled ?s 7 0 (resolved None)) = events ?s"
    by simp_all
  then show ?thesis
    using inj_test_uuid h2 h3 ev by (simp add: defaultInput_def)
qed


section \<open>Submissions that settle one by one\<close>

text \<open>
  When every submission settles before the next is made, the admission check and
  the entry in the running map are not interleaved with another admission cycle.
  Then the ceiling holds: after \<open>n\<close> submissions \<open>min n 3\<close> tasks run and the others
  wait, in the order of submission.
\<close>

lemma startTask_resumed_started:
  assumes "pendingTasks s = []"
  shows "pendingTasks (startTask_resumed s now task (Some p)) = []"
    and "suspended (startTask_resumed s now task (Some p)) = suspended s"
    and "runningTasks (startTask_resumed s now task (Some p)) =
           AList.update (task_id (objects s ! task)) (task, length (processes s)) (runningTasks s)"
proof -
  define s1 where "s1 = modify task (\<lambda>t. t\<lparr>status := running, startedAt := Some now\<rparr>) s"
  define t where "t = deref s1 task"
  define s4 where "s4 = emit (task_started t)
     (s1\<lparr>processes := processes s1 @ [(spawnClaude \<lparr>cwd = path p, spawn_prompt = prompt t,
                                   spawn_maxBudget = maxBudget t\<rparr>, task)],
        runningTasks := AList.update (task_id t) (task, length (processes s1)) (runningTasks s1)\<rparr>)"
  have eq: "startTask_resumed s now task (Some p) = processQueue s4"
    by (simp add: startTask_resumed_def Let_def s4_def t_def s1_def emit_def)
  have s1f: "pendingTasks s1 = pendingTasks s" "suspended s1 = suspended s"
    "runningTasks s1 = runningTasks s" "processes s1 = processes s"
    by (simp_all add: s1_def modify_def)
  have tid: "task_id t = task_id (objects s ! task)"
    by (cases "task < length (objects s)")
       (simp_all add: t_def s1_def deref_def modify_def list_update_beyond)
  have s4f: "pendingTasks s4 = []" "suspended s4 = suspended s"
    "runningTasks s4 = AList.update (task_id (objects s ! task)) (task, length (processes s)) (runningTasks s)"
    using assms by (simp_all add: s4_def emit_def s1f tid)
  have pq: "processQueue s4 = s4" using s4f(1) by (simp add: processQueue_def)
  show "pendingTasks (startTask_resumed s now task (Some p)) = []"
    and "suspended (startTask_resumed s now task (Some p)) = suspended s"
    and "runningTasks (startTask_resumed s now task (Some p)) =
           AList.update (task_id (objects s ! task)) (task, length (processes s)) (runningTasks s)"
    by (simp_all add: eq pq s4f)
qed

lemma resume_createTask:
  assumes "suspended s = []"
  shows "resume 0 (createTask s input) = s"
  using assms by (cases s) (simp add: resume_def createTask_def suspend_def)

lemma resume_singleton:
  assumes "suspended s = [c]"
  shows "suspended (resume 0 s) = []"
  using assms by (simp add: resume_def)

lemma settled_state_submit:
  assumes st: "settled_state gen n s" and gen: "inj gen"
  shows "settled_state gen (Suc n) (submit_settled s (now, input, p))"
proof -
  from st have sus: "suspended s = []" and uu: "uuidv4 s = gen" and calls: "uuid_calls s = n"
    and ids: "map task_id (objects s) = map gen [0..<n]"
    and keys: "map fst (runningTasks s) = map gen [0..<min n 3]"
    and pend: "pendingTasks s = [3..<n]"
    by (simp_all add: settled_state_def)
  have len: "length (objects s) = n"
  proof -
    from ids have "length (map task_id (objects s)) = length (map gen [0..<n])" by simp
    then show ?thesis by simp
  qed
  define s1 where "s1 = createTask s input"
  define e where "e = enqueued s now input"
  define s2 where "s2 = on_lookup_settled s1 now 0 (resolved (Some p))"
  define s3 where "s3 = on_lookup_settled s2 now 0 (resolved (Some p))"
  have run: "submit_settled s (now, input, p) = s3"
    by (simp add: submit_settled_def run_def s3_def s2_def s1_def)
  have s1sus: "0 < length (suspended s1)" "suspended s1 ! 0 = createTask_lookup input"
    using sus by (simp_all add: s1_def createTask_def suspend_def)
  have s2eq: "s2 = processQueue e"
    unfolding s2_def e_def
    using on_lookup_settled_createTask(3) [OF s1sus, of now p] resume_createTask [OF sus, of input]
    by (simp add: s1_def)
  have ev: "id_view e = (map gen [0..<Suc n], gen, Suc n)"
    using ids uu calls by (simp add: e_def id_view_enqueued)
  have ef: "pendingTasks e = [3..<n] @ [n]" "runningTasks e = runningTasks s" "suspended e = []"
    using pend sus len by (simp_all add: e_def enqueued_fields)
  have rlen: "length (runningTasks s) = min n 3"
  proof -
    from keys have "length (map fst (runningTasks s)) = length (map gen [0..<min n 3])" by simp
    then show ?thesis by simp
  qed
  have eobj: "objects e ! n = created_task s now input"
    using len by (simp add: e_def enqueued_fields nth_append)
  show ?thesis
  proof (cases "n < 3")
    case False
    then have full: "\<not> length (runningTasks e) < MAX_CONCURRENT_TASKS"
      using rlen ef(2) by (simp add: MAX_CONCURRENT_TASKS_def)
    have "processQueue e = e"
      using full by (simp add: processQueue_def split: list.splits)
    with s2eq have s2e: "s2 = e" by simp
    have s3e: "s3 = e"
      unfolding s3_def s2e using ef(3) by (simp add: on_lookup_settled_other)
    have p3: "pendingTasks s3 = [3..<Suc n]"
      using False ef(1) by (simp add: s3e)
    have m3: "min (Suc n) 3 = min n 3" using False by simp
    have k3: "map fst (runningTasks s3) = map gen [0..<min (Suc n) 3]"
      unfolding m3 using keys ef(2) by (simp add: s3e)
    have v3: "map task_id (objects s3) = map gen [0..<Suc n]" "uuidv4 s3 = gen" "uuid_calls s3 = Suc n"
      using ev unfolding s3e id_view_def by simp_all
    have u3: "suspended s3 = []" using ef(3) by (simp add: s3e)
    show ?thesis
      unfolding run settled_state_def using p3 k3 v3 u3 by blast
  next
    case True
    then have cap: "length (runningTasks e) < MAX_CONCURRENT_TASKS"
      using rlen ef(2) by (simp add: MAX_CONCURRENT_TASKS_def)
    have pe: "pendingTasks e = [n]" using ef(1) True by simp
    have s2q: "s2 = suspend (startTask_lookup n) (e\<lparr>pendingTasks := []\<rparr>)"
      unfolding s2eq using cap pe by (simp add: processQueue_def)
    define r where "r = resume 0 s2"
    have s2sus: "0 < length (suspended s2)" "suspended s2 ! 0 = startTask_lookup n"
      using ef(3) by (simp_all add: s2q suspend_def)
    have s3eq: "s3 = startTask_resumed r now n (Some p)"
      unfolding s3_def r_def by (rule on_lookup_settled_startTask(2) [OF s2sus])
    have rf: "pendingTasks r = []" "suspended r = []" "runningTasks r = runningTasks s"
      "objects r = objects e"
      using ef by (simp_all add: r_def s2q suspend_def resume_def)
    have rv: "id_view r = id_view e"
      by (simp add: r_def s2q)
    have tid: "task_id (objects r ! n) = gen n"
      using uu calls by (simp add: rf(4) eobj created_task_def)
    have fresh: "gen n \<notin> set (map fst (runningTasks s))"
      using keys gen by (auto simp: inj_eq)
    have k3: "map fst (runningTasks s3) = map gen [0..<Suc n]"
      unfolding s3eq startTask_resumed_started(3) [OF rf(1)] tid
      using fresh keys True by (simp add: update_keys rf(3))
    have v3: "id_view s3 = (map gen [0..<Suc n], gen, Suc n)"
      unfolding s3eq using rv ev by simp
    have q3: "pendingTasks s3 = []" "suspended s3 = []"
      unfolding s3eq using startTask_resumed_started(1,2) [OF rf(1)] rf(2) by simp_all
    have e3: "[3..<Suc n] = []" "min (Suc n) 3 = Suc n" using True by simp_all
    have w3: "map task_id (objects s3) = map gen [0..<Suc n]" "uuidv4 s3 = gen" "uuid_calls s3 = Suc n"
      using v3 unfolding id_view_def by simp_all
    show ?thesis
      unfolding run settled_state_def e3 using q3 k3 w3 by blast
  qed
qed

lemma settled_state_foldl:
  assumes "inj gen"
  shows "settled_state gen (length xs) (foldl submit_settled (new_TaskManager gen) xs)"
proof (induction xs rule: rev_induct)
  case Nil
  show ?case by (simp add: settled_state_def new_TaskManager_def)
next
  case (snoc x xs)
  obtain now input p where x: "x = (now, input, p)" by (cases x)
  from settled_state_submit [OF snoc.IH assms, of now input p] x show ?case by simp
qed

lemma settled_submissions_respect_ceiling:
  assumes "inj gen"
  shows "getRunningCount (foldl submit_settled (new_TaskManager gen) xs) = min (length xs) 3 \<and>
         getPendingCount (foldl submit_settled (new_TaskManager gen) xs) = length xs - min (length xs) 3"
proof -
  from settled_state_foldl [OF assms, of xs]
  have "map fst (runningTasks (foldl submit_settled (new_TaskManager gen) xs)) = map gen [0..<min (length xs) 3]"
    and "pendingTasks (foldl submit_settled (new_TaskManager gen) xs) = [3..<length xs]"
    by (simp_all add: settled_state_def)
  then have "length (map fst (runningTasks (foldl submit_settled (new_TaskManager gen) xs))) = length (map gen [0..<min (length xs) 3])"
    and "length (pendingTasks (foldl submit_settled (new_TaskManager gen) xs)) = length xs - 3"
    by simp_all
  then show ?thesis by (auto simp: getRunningCount_def getPendingCount_def)
qed

text \<open>
  The scenario of the repository's tests: the task is started with
  \<open>--max-turns 25\<close>, its output accumulates to \<open>ab\<close>, and after exit code 0 it is
  completed, gone from the engine and handed to the history once.
\<close>

lemma fix_bug_run_completes:
  "(let s = run (new_TaskManager test_uuid) fix_bug_run in
      map event_tag (events s) =
        [(''task:created'', ''test-uuid-1''), (''task:started'', ''test-uuid-1''),
         (''task:output'', ''test-uuid-1''), (''task:output'', ''test-uuid-1''),
         (''task:completed'', ''test-uuid-1'')] \<and>
      map (\<lambda>(p, a). start_args (options p)) (processes s) =
        [[''-p'', ''Fix bug'', ''--dangerously-skip-permissions'', ''--max-turns'', ''25'', ''--verbose'']] \<and>
      getTask s ''test-uuid-1'' = None \<and>
      map (\<lambda>t. (status t, output_text t)) (historyCalls s) = [(completed, ''ab'')] \<and>
      suspended s = [])"
  by code_simp

lemma fix_bug_output_accumulates:
  "map_option output_text (getTask (run (new_TaskManager test_uuid) (take 5 fix_bug_run)) ''test-uuid-1'')
     = Some ''ab''"
  by code_simp

text \<open>
  With three tasks running and D, E waiting, cancelling B frees a slot and the
  admission cycle takes D, the head of the queue; E keeps waiting.
\<close>

lemma cancel_promotes_head_of_queue:
  "(let s = run (new_TaskManager test_uuid) (take 13 five_then_cancel) in
      getRunningCount s = 3 \<and> getPendingCount s = 2 \<and>
      map (\<lambda>t. (prompt t, status t)) (getActiveTasks s) =
        [(''A'', running), (''B'', running), (''C'', running), (''D'', pending), (''E'', pending)]) \<and>
   (let s = run (new_TaskManager test_uuid) five_then_cancel in
      getRunningCount s = 3 \<and> getPendingCount s = 1 \<and>
      map (\<lambda>t. (prompt t, status t)) (getActiveTasks s) =
        [(''A'', running), (''C'', running), (''D'', running), (''E'', pending)] \<and>
      map event_tag (drop 8 (events s)) =
        [(''task:cancelled'', ''test-uuid-2''), (''task:started'', ''test-uuid-4'')])"
  by code_simp

end
